theory Spec2Isabelle
  imports Main "HOL-Library.Sublist"
begin

section \<open>Python values shared by both modules\<close>

text \<open>
  Exceptions are values. \<open>ValueError\<close>, \<open>IndexError\<close> and \<open>ToolError\<close> are the ones the
  two modules raise themselves or provoke by indexing; \<open>JSONDecodeError\<close> is the one
  \<open>execute_tool\<close> catches by name; \<open>OtherError\<close> stands for any other exception of a
  collaborator (a tool, the language-model client, the process handle), with its message.
\<close>

datatype exn =
    ValueError string
  | IndexError
  | ToolError string
  | JSONDecodeError string
  | OtherError string

text \<open>\<open>str(e)\<close>: the message of the exception.\<close>

fun str_exn :: "exn \<Rightarrow> string" where
  "str_exn (ValueError m) = m"
| "str_exn IndexError = ''list index out of range''"
| "str_exn (ToolError m) = m"
| "str_exn (JSONDecodeError m) = m"
| "str_exn (OtherError m) = m"

definition apostrophe :: string where
  "apostrophe = [CHR 0x27]"

definition newline :: string where
  "newline = [CHR 0x0A]"

text \<open>
  \<open>sep.join(xs)\<close> of Python: the elements with the separator between each two of them.
\<close>

fun join :: "string \<Rightarrow> string list \<Rightarrow> string" where
  "join sep [] = []"
| "join sep [x] = x"
| "join sep (x # y # ys) = x @ sep @ join sep (y # ys)"

section \<open>The agent: \<open>app/agent/toolcall.py\<close>\<close>

subsection \<open>Data\<close>

text \<open>
  Modelled from the spec: \<open>AgentState\<close>, \<open>Message\<close> and \<open>ToolCall\<close>, the classes of
  \<open>app.schema\<close> that the module imports. By the data model of the specification a tool
  call has an id, a function name and a raw argument payload; a message has a role, an
  optional text, and for the tool role the id of the call it answers and the tool's
  name; an assistant message may bundle the tool calls it proposes.
\<close>

datatype AgentState = Idle | Running | Finished | Error

datatype tool_choice = NoneChoice | Auto | Required

text \<open>
  The function of a call. Both attributes may be absent (\<open>None\<close>); the source tests
  \<open>not command.function.name\<close> and \<open>command.function.arguments or "{}"\<close>.
\<close>

record func =
  name :: "string option"
  arguments :: "string option"

record ToolCall =
  call_id :: string
  func :: func

datatype role = System | User | Assistant | Tool

record Message =
  role :: role
  content :: "string option"
  tool_call_id :: "string option"
  tool_name :: "string option"
  msg_tool_calls :: "ToolCall list option"




definition tool_message :: "string \<Rightarrow> string \<Rightarrow> string option \<Rightarrow> Message" where
  "tool_message c i n =
     \<lparr>role = Tool, content = Some c, tool_call_id = Some i, tool_name = n,
      msg_tool_calls = None\<rparr>"


text \<open>
  The value a tool returns is used twice by \<open>execute_tool\<close>: as a condition
  (\<open>if result\<close>) and through \<open>str(result)\<close>. Both are method calls on a value of any
  class, so each gives its answer or raises.
\<close>

record py_value =
  truthy :: "exn + bool"
  str_of :: "exn + string"

text \<open>
  The fields of the agent that the two methods read and write, and \<open>world\<close>: the state
  of everything outside the agent that a tool reads and writes when it executes.
\<close>

record 'w agent =
  state :: AgentState
  messages :: "Message list"
  tool_calls :: "ToolCall list"
  tool_choices :: tool_choice
  special_tool_names :: "string list"
  next_step_prompt :: string
  system_prompt :: string
  world :: 'w

text \<open>
  The object the language-model client returns. \<open>think\<close> reads both attributes with
  \<open>getattr\<close> and a default, so an attribute may be missing altogether, present and
  \<open>None\<close>, or present with a value.
\<close>

datatype 'a attr = Missing | Attr 'a

record response =
  r_content :: "string option attr"
  r_tool_calls :: "ToolCall list option attr"

text \<open>
  The places of \<open>think\<close> outside its two inner \<open>try\<close> blocks, where only the outer
  \<open>except Exception\<close> catches an exception.
\<close>

datatype site = AtPrompt | AtExtract | AtNoneBranch | AtDecide

text \<open>
  The collaborators of the agent, which are not part of the module:
  \<^item> \<open>json_loads\<close> is \<open>json.loads\<close>;
  \<^item> \<open>tool_names\<close> is the key set of \<open>available_tools.tool_map\<close>;
  \<^item> \<open>execute\<close> is \<open>available_tools.execute\<close>: it returns a value or raises, and
    changes the world either way;
  \<^item> \<open>ask_tool\<close> is \<open>llm.ask_tool\<close>, on the history, the system messages and the policy;
  \<^item> \<open>create_fault\<close> is the exception, if any, that building the assistant message of
    lines 92 to 103 raises;
  \<^item> \<open>fault\<close> is the exception, if any, that strikes at a site of \<open>think\<close>;
  \<^item> \<open>lower\<close> is the built-in \<open>str.lower\<close>.
\<close>

record ('j, 'w) env =
  json_loads :: "string \<Rightarrow> exn + 'j"
  tool_names :: "string set"
  execute :: "string \<Rightarrow> 'j \<Rightarrow> 'w \<Rightarrow> (exn + py_value) \<times> 'w"
  ask_tool :: "Message list \<Rightarrow> Message list option \<Rightarrow> tool_choice \<Rightarrow> exn + response"
  create_fault :: "exn option"
  fault :: "site \<Rightarrow> exn option"
  lower :: "string \<Rightarrow> string"

definition add_message :: "'w agent \<Rightarrow> Message \<Rightarrow> 'w agent" where
  "add_message s m = s\<lparr>messages := messages s @ [m]\<rparr>"

subsection \<open>\<open>execute_tool\<close> and the special tools\<close>

definition TOOL_CALL_REQUIRED :: string where
  "TOOL_CALL_REQUIRED = ''Tool calls required but none provided''"

definition is_special_tool :: "('j, 'w) env \<Rightarrow> 'w agent \<Rightarrow> string \<Rightarrow> bool" where
  "is_special_tool e s n \<longleftrightarrow> lower e n \<in> set (map (lower e) (special_tool_names s))"

definition should_finish_execution :: "string \<Rightarrow> py_value \<Rightarrow> bool" where
  "should_finish_execution n result = True"

definition handle_special_tool ::
  "('j, 'w) env \<Rightarrow> 'w agent \<Rightarrow> string \<Rightarrow> py_value \<Rightarrow> 'w agent" where
  "handle_special_tool e s n result =
     (if \<not> is_special_tool e s n then s
      else if should_finish_execution n result then s\<lparr>state := Finished\<rparr>
      else s)"

text \<open>
  Lines 178 to 182: the condition \<open>if result\<close> is evaluated first, and \<open>str(result)\<close> only
  when it holds; an exception of either leaves the expression.
\<close>

definition observation :: "string \<Rightarrow> py_value \<Rightarrow> exn + string" where
  "observation n result =
     (case truthy result of
        Inl x \<Rightarrow> Inl x
      | Inr True \<Rightarrow>
          (case str_of result of
             Inl x \<Rightarrow> Inl x
           | Inr t \<Rightarrow> Inr (''Observed output of cmd `'' @ n @ ''` executed:'' @ newline @ t))
      | Inr False \<Rightarrow> Inr (''Cmd `'' @ n @ ''` completed with no output''))"

text \<open>Line 171: \<open>command.function.arguments or "{}"\<close>.\<close>

definition payload :: "string option \<Rightarrow> string" where
  "payload args = (case args of None \<Rightarrow> ''{}'' | Some a \<Rightarrow> if a = [] then ''{}'' else a)"

text \<open>
  The body of the \<open>try\<close> block of \<open>execute_tool\<close> (lines 170 to 187). An exception leaves
  it with the agent as it is at that moment: the world as the tool left it, the state
  untouched.
\<close>

definition execute_tool_try ::
  "('j, 'w) env \<Rightarrow> 'w agent \<Rightarrow> string \<Rightarrow> string option \<Rightarrow> (exn + string) \<times> 'w agent" where
  "execute_tool_try e s n args =
     (case json_loads e (payload args) of
        Inl x \<Rightarrow> (Inl x, s)
      | Inr j \<Rightarrow>
          (case execute e n j (world s) of
             (Inl x, w) \<Rightarrow> (Inl x, s\<lparr>world := w\<rparr>)
           | (Inr result, w) \<Rightarrow>
               (case observation n result of
                  Inl x \<Rightarrow> (Inl x, s\<lparr>world := w\<rparr>)
                | Inr obs \<Rightarrow> (Inr obs, handle_special_tool e (s\<lparr>world := w\<rparr>) n result))))"

definition warning_sign :: string where
  "warning_sign = [CHR 0xE2, CHR 0x9A, CHR 0xA0, CHR 0xEF, CHR 0xB8, CHR 0x8F]"

text \<open>
  The two handlers of lines 188 to 197: what \<open>execute_tool\<close> returns for an exception
  of the \<open>try\<close> block.
\<close>

definition error_observation :: "string \<Rightarrow> exn \<Rightarrow> string" where
  "error_observation n x =
     (case x of
        JSONDecodeError m \<Rightarrow>
          ''Error: Error parsing arguments for '' @ n @ '': Invalid JSON format''
      | _ \<Rightarrow>
          ''Error: '' @ warning_sign @ '' Tool '' @ apostrophe @ n @ apostrophe
            @ '' encountered a problem: '' @ str_exn x)"

definition execute_tool ::
  "('j, 'w) env \<Rightarrow> 'w agent \<Rightarrow> ToolCall \<Rightarrow> (exn + string) \<times> 'w agent" where
  "execute_tool e s command =
     (case name (func command) of
        None \<Rightarrow> (Inr ''Error: Invalid command format'', s)
      | Some n \<Rightarrow>
          if n = [] then (Inr ''Error: Invalid command format'', s)
          else if n \<notin> tool_names e
          then (Inr (''Error: Unknown tool '' @ apostrophe @ n @ apostrophe), s)
          else
            (case execute_tool_try e s n (arguments (func command)) of
               (Inr obs, s') \<Rightarrow> (Inr obs, s')
             | (Inl x, s') \<Rightarrow> (Inr (error_observation n x), s')))"

subsection \<open>\<open>act\<close>\<close>

text \<open>
  The \<open>for\<close> loop of \<open>act\<close> (lines 145 to 156): the calls still to run, the results
  collected so far. An exception of \<open>execute_tool\<close> would leave the loop at once.
\<close>

fun act_loop ::
  "('j, 'w) env \<Rightarrow> 'w agent \<Rightarrow> ToolCall list \<Rightarrow> string list \<Rightarrow> (exn + string list) \<times> 'w agent" where
  "act_loop e s [] results = (Inr results, s)"
| "act_loop e s (command # rest) results =
     (case execute_tool e s command of
        (Inl x, s1) \<Rightarrow> (Inl x, s1)
      | (Inr result, s1) \<Rightarrow>
          act_loop e
            (add_message s1 (tool_message result (call_id command) (name (func command))))
            rest (results @ [result]))"

definition act :: "('j, 'w) env \<Rightarrow> 'w agent \<Rightarrow> (exn + string) \<times> 'w agent" where
  "act e s =
     (if tool_calls s = [] then
        (if tool_choices s = Required then (Inl (ValueError TOOL_CALL_REQUIRED), s)
         else if messages s = [] then (Inl IndexError, s)
         else
           (case content (last (messages s)) of
              None \<Rightarrow> (Inr ''No content or commands to execute'', s)
            | Some c \<Rightarrow>
                if c = [] then (Inr ''No content or commands to execute'', s)
                else (Inr c, s)))
      else
        (case act_loop e s (tool_calls s) [] of
           (Inl x, s') \<Rightarrow> (Inl x, s')
         | (Inr results, s') \<Rightarrow> (Inr (join (newline @ newline) results), s')))"

subsection \<open>\<open>think\<close>\<close>












section \<open>The interactive session: \<open>app/tool/powershell.py\<close>\<close>

subsection \<open>Strings\<close>

text \<open>
  \<open>find_sub sub s\<close> is the index of the first occurrence of \<open>sub\<close> in \<open>s\<close>, if there
  is one: it decides \<open>sub in s\<close> and gives \<open>s.index(sub)\<close>.
\<close>

fun find_sub :: "string \<Rightarrow> string \<Rightarrow> nat option" where
  "find_sub sub [] = (if sub = [] then Some 0 else None)"
| "find_sub sub (c # cs) =
     (if prefix sub (c # cs) then Some 0 else map_option Suc (find_sub sub cs))"

definition contains :: "string \<Rightarrow> string \<Rightarrow> bool" where
  "contains s sub \<longleftrightarrow> find_sub sub s \<noteq> None"

text \<open>Lines 117 to 120: \<open>if t.endswith("\n"): t = t[:-1]\<close>.\<close>

definition strip_newline :: "string \<Rightarrow> string" where
  "strip_newline t = (if t \<noteq> [] \<and> last t = CHR 0x0A then butlast t else t)"

text \<open>The decimal text of an integer, as an f-string prints a return code.\<close>

definition digit :: "nat \<Rightarrow> char" where
  "digit n = ''0123456789'' ! n"

fun str_nat :: "nat \<Rightarrow> string" where
  "str_nat n = (if n < 10 then [digit n] else str_nat (n div 10) @ [digit (n mod 10)])"

declare str_nat.simps [simp del]

definition str_int :: "int \<Rightarrow> string" where
  "str_int i = (if i < 0 then ''-'' @ str_nat (nat (- i)) else str_nat (nat i))"

subsection \<open>Data\<close>

text \<open>
  Modelled from the spec: \<open>ToolResult\<close> and its subclass \<open>CLIResult\<close>, the classes of
  \<open>app.tool.base\<close> that the module imports; the module sets the fields \<open>output\<close>,
  \<open>error\<close> and \<open>system\<close> of them.
\<close>

datatype tool_result =
    ToolResult (tr_output: "string option") (tr_error: "string option") (tr_system: "string option")
  | CLIResult (tr_output: "string option") (tr_error: "string option") (tr_system: "string option")

datatype signal = CTRL_BREAK_EVENT | SIGINT

text \<open>
  The child process, as far as the session touches it: the return code it shows, the
  texts written to its input, the signals sent to it, and whether its termination was
  requested.
\<close>

record process =
  returncode :: "int option"
  stdin_written :: "string list"
  signals_sent :: "signal list"
  terminate_requested :: bool

text \<open>
  \<open>_PowerShellSession\<close>. The attribute \<open>_process\<close> is only assigned by \<open>start\<close>.
\<close>

record session =
  started :: bool
  timed_out :: bool
  process :: "process option"

text \<open>
  The surroundings of one call:
  \<^item> \<open>nt\<close> is \<open>os.name == 'nt'\<close>;
  \<^item> \<open>reads\<close> is what the polls of one \<open>run\<close> read before its deadline, one pair per
    completed round of the loop: the decoded text read from the output stream and the
    decoded text read from the error stream (empty when the read returned nothing).
    When the list is used up, the deadline has passed;
  \<^item> \<open>send_signal_error\<close> is the exception, if any, that \<open>send_signal\<close> raises;
  \<^item> \<open>spawn\<close> is \<open>asyncio.create_subprocess_shell\<close>: a new process, or an exception;
  \<^item> \<open>str_strip\<close> and \<open>str_lower\<close> are the built-ins \<open>str.strip\<close> and \<open>str.lower\<close>.
\<close>

record surroundings =
  nt :: bool
  reads :: "(string \<times> string) list"
  send_signal_error :: "exn option"
  spawn :: "exn + process"
  str_strip :: "string \<Rightarrow> string"
  str_lower :: "string \<Rightarrow> string"

definition sentinel :: string where
  "sentinel = ''<<exit>>''"

definition timed_out_message :: string where
  "timed_out_message =
     ''timed out: PowerShell has not returned in 120.0 seconds and must be restarted''"

definition new_session :: session where
  "new_session = \<lparr>started = False, timed_out = False, process = None\<rparr>"

subsection \<open>\<open>start\<close>, \<open>stop\<close> and \<open>run\<close>\<close>

definition start :: "surroundings \<Rightarrow> session \<Rightarrow> (exn + unit) \<times> session" where
  "start env s =
     (if started s then (Inr (), s)
      else
        (case spawn env of
           Inl x \<Rightarrow> (Inl x, s)
         | Inr p \<Rightarrow> (Inr (), s\<lparr>process := Some p, started := True\<rparr>)))"

definition stop :: "session \<Rightarrow> (exn + unit) \<times> session" where
  "stop s =
     (if \<not> started s then (Inl (ToolError ''Session has not started.''), s)
      else
        (case process s of
           None \<Rightarrow> (Inl (OtherError ''AttributeError''), s)
         | Some p \<Rightarrow>
             if returncode p \<noteq> None then (Inr (), s)
             else (Inr (), s\<lparr>process := Some (p\<lparr>terminate_requested := True\<rparr>)\<rparr>)))"

text \<open>
  The polling loop of lines 86 to 101, on the rounds that complete before the deadline;
  \<open>None\<close> is \<open>asyncio.TimeoutError\<close>.
\<close>

fun read_loop :: "string \<Rightarrow> string \<Rightarrow> (string \<times> string) list \<Rightarrow> (string \<times> string) option" where
  "read_loop out err [] = None"
| "read_loop out err ((so, se) # rest) =
     (let out' = (if so \<noteq> [] then out @ so else out);
          err' = (if se \<noteq> [] then err @ se else err)
      in if so \<noteq> [] then
           (case find_sub sentinel out' of
              Some i \<Rightarrow> Some (take i out', err)
            | None \<Rightarrow> read_loop out' err' rest)
         else read_loop out' err' rest)"

definition interrupt_signal :: "surroundings \<Rightarrow> signal" where
  "interrupt_signal env = (if nt env then CTRL_BREAK_EVENT else SIGINT)"

text \<open>
  Lines 59 to 62: the result for a process that has exited. In \<open>run\<close> below, the write
  to the input stream and its \<open>drain\<close> (lines 75 to 78) are taken to succeed, and the
  texts of \<open>reads\<close> are the chunks after \<open>decode('utf-16le', errors='ignore')\<close>.
\<close>

definition exited_result :: "int \<Rightarrow> tool_result" where
  "exited_result rc =
     ToolResult None (Some (''PowerShell has exited with returncode '' @ str_int rc))
       (Some ''tool must be restarted'')"

definition run :: "surroundings \<Rightarrow> session \<Rightarrow> string \<Rightarrow> (exn + tool_result) \<times> session" where
  "run env s command =
     (if \<not> started s then (Inl (ToolError ''Session has not started.''), s)
      else
        (case process s of
           None \<Rightarrow> (Inl (OtherError ''AttributeError''), s)
         | Some p \<Rightarrow>
             (case returncode p of
                Some rc \<Rightarrow> (Inr (exited_result rc), s)
              | None \<Rightarrow>
                  if timed_out s then (Inl (ToolError timed_out_message), s)
                  else
                    (let p1 = p\<lparr>stdin_written := stdin_written p
                                 @ [command @ ''; Write-Output '' @ apostrophe @ sentinel
                                    @ apostrophe @ newline]\<rparr>
                     in case read_loop [] [] (reads env) of
                          None \<Rightarrow>
                            (case send_signal_error env of
                               Some x \<Rightarrow> (Inl x, s\<lparr>timed_out := True, process := Some p1\<rparr>)
                             | None \<Rightarrow>
                                 (Inl (ToolError timed_out_message),
                                  s\<lparr>timed_out := True,
                                    process := Some (p1\<lparr>signals_sent := signals_sent p1
                                                       @ [interrupt_signal env]\<rparr>)\<rparr>))
                        | Some (out, err) \<Rightarrow>
                            (Inr (CLIResult (Some (strip_newline out)) (Some (strip_newline err))
                                   None),
                             s\<lparr>process := Some p1\<rparr>)))))"

subsection \<open>The adapter: \<open>PowerShell.execute\<close>\<close>

text \<open>The state of the adapter is its field \<open>_session\<close>.\<close>

definition execute_powershell ::
  "surroundings \<Rightarrow> session option \<Rightarrow> string option \<Rightarrow> bool \<Rightarrow> (exn + tool_result) \<times> session option" where
  "execute_powershell env sess command restart =
     (if restart then
        (case (case sess of None \<Rightarrow> (Inr (), None) | Some s \<Rightarrow> map_prod (\<lambda>r. r) Some (stop s)) of
           (Inl x, sess') \<Rightarrow> (Inl x, sess')
         | (Inr u, sess') \<Rightarrow>
             (case start env new_session of
                (Inl x, s') \<Rightarrow> (Inl x, Some s')
              | (Inr u', s') \<Rightarrow> (Inr (ToolResult None None (Some ''tool has been restarted.'')), Some s')))
      else
        (case (case sess of None \<Rightarrow> start env new_session | Some s \<Rightarrow> (Inr (), s)) of
           (Inl x, s) \<Rightarrow> (Inl x, Some s)
         | (Inr u, s) \<Rightarrow>
             (case command of
                None \<Rightarrow> (Inl (ToolError ''no command provided.''), Some s)
              | Some c \<Rightarrow>
                  if str_lower env (str_strip env c) = ''ctrl+c'' then
                    (case process s of
                       None \<Rightarrow> (Inl (OtherError ''AttributeError''), Some s)
                     | Some p \<Rightarrow>
                         if returncode p = None then
                           (case send_signal_error env of
                              Some x \<Rightarrow> (Inl x, Some s)
                            | None \<Rightarrow>
                                (Inr (ToolResult None None (Some ''Interrupt signal sent to process.'')),
                                 Some (s\<lparr>process := Some (p\<lparr>signals_sent := signals_sent p
                                                            @ [interrupt_signal env]\<rparr>)\<rparr>)))
                         else (Inr (ToolResult None None (Some ''No active process to interrupt.'')),
                               Some s))
                  else map_prod (\<lambda>r. r) Some (run env s c))))"

section \<open>Notions used by the properties\<close>

text \<open>
  One call run to its end, as the specification describes it: the tool is executed and
  its result is appended to memory as a tool message keyed by the id of the call and the
  name of the tool. Running a list of calls one after the other, in the order of the
  list, is the left fold of \<open>answered\<close> over it.
\<close>

definition answered :: "('j, 'w) env \<Rightarrow> 'w agent \<Rightarrow> ToolCall \<Rightarrow> 'w agent" where
  "answered e s c =
     (case execute_tool e s c of
        (Inl x, s1) \<Rightarrow> s1
      | (Inr r, s1) \<Rightarrow> add_message s1 (tool_message r (call_id c) (name (func c))))"

definition answer :: "ToolCall \<times> string \<Rightarrow> Message" where
  "answer p = tool_message (snd p) (call_id (fst p)) (name (func (fst p)))"




text \<open>
  The text that a command writes before the sentinel is free of the sentinel when the
  sentinel does not occur in it.
\<close>

definition sentinel_free :: "string \<Rightarrow> bool" where
  "sentinel_free t \<longleftrightarrow> \<not> contains t sentinel"

text \<open>
  The output text that the rounds \<open>0\<close> to \<open>k\<close> of the polling loop have read, and the
  error text that the rounds before round \<open>k\<close> have read.
\<close>

definition accumulated :: "(string \<times> string) list \<Rightarrow> nat \<Rightarrow> string" where
  "accumulated rs k = concat (map fst (take (Suc k) rs))"

definition error_before :: "(string \<times> string) list \<Rightarrow> nat \<Rightarrow> string" where
  "error_before rs k = concat (map snd (take k rs))"

text \<open>
  A run exceeds its time budget when the sentinel has not appeared in the accumulated
  output by the end of any round that completes before the deadline.
\<close>

definition exceeds_budget :: "surroundings \<Rightarrow> bool" where
  "exceeds_budget env \<longleftrightarrow>
     (\<forall>j<length (reads env). sentinel_free (accumulated (reads env) j))"

text \<open>
  Later calls of \<open>run\<close> on one session. Between two calls the child process may change
  on its own (it may exit), which the function given with each call describes.
\<close>

fun run_later ::
  "session \<Rightarrow> (surroundings \<times> (process \<Rightarrow> process) \<times> string) list
    \<Rightarrow> (exn + tool_result) list \<times> session" where
  "run_later s [] = ([], s)"
| "run_later s ((env, change, command) # rest) =
     (case run env (s\<lparr>process := map_option change (process s)\<rparr>) command of
        (r, s1) \<Rightarrow> (case run_later s1 rest of (rs, s2) \<Rightarrow> (r # rs, s2)))"

section \<open>A small instance\<close>

text \<open>
  On ASCII text \<open>str.lower\<close> maps the letters \<open>A\<close> to \<open>Z\<close> to \<open>a\<close> to \<open>z\<close> and \<open>str.strip\<close>
  removes the white space at both ends; the instance works on ASCII text.
\<close>

definition ascii_lower_char :: "char \<Rightarrow> char" where
  "ascii_lower_char c =
     (let n = (of_char c :: nat)
      in if 65 \<le> n \<and> n \<le> 90 then char_of (n + 32) else c)"

definition ascii_lower :: "string \<Rightarrow> string" where
  "ascii_lower s = map ascii_lower_char s"

definition ascii_space :: "char \<Rightarrow> bool" where
  "ascii_space c =
     (let n = (of_char c :: nat) in (9 \<le> n \<and> n \<le> 13) \<or> (28 \<le> n \<and> n \<le> 32))"

definition ascii_strip :: "string \<Rightarrow> string" where
  "ascii_strip t = rev (dropWhile ascii_space (rev (dropWhile ascii_space t)))"

text \<open>
  An agent with four tools over a world that counts the executions: \<open>echo\<close> returns the
  text \<open>hi\<close>, \<open>terminate\<close> returns a value that counts as false, \<open>boom\<close> raises, and
  \<open>restart\<close> returns a value that counts as true and whose \<open>str\<close> raises. The payload
  \<open>{}\<close> parses and the payload \<open>{bad\<close> does not. All three names but \<open>echo\<close> are
  special. The language model fails on an empty history and otherwise answers with a
  plain text.
\<close>

definition demo_env :: "(string, nat) env" where
  "demo_env =
     \<lparr>json_loads = (\<lambda>a. if a = ''{}'' then Inr a
                         else Inl (JSONDecodeError ''Expecting property name'')),
      tool_names = {''echo'', ''terminate'', ''boom'', ''restart''},
      execute = (\<lambda>n j w.
         if n = ''boom'' then (Inl (OtherError ''kaput''), Suc w)
         else if n = ''echo'' then (Inr \<lparr>truthy = Inr True, str_of = Inr ''hi''\<rparr>, Suc w)
         else if n = ''restart''
         then (Inr \<lparr>truthy = Inr True,
                    str_of = Inl (OtherError ''__str__ returned non-string'')\<rparr>, Suc w)
         else (Inr \<lparr>truthy = Inr False, str_of = Inr []\<rparr>, Suc w)),
      ask_tool = (\<lambda>ms sys p.
         if ms = [] then Inl (OtherError ''connection refused'')
         else Inr \<lparr>r_content = Attr (Some ''All done.''), r_tool_calls = Attr None\<rparr>),
      create_fault = None,
      fault = (\<lambda>site. None),
      lower = ascii_lower\<rparr>"

definition demo_call :: "string \<Rightarrow> string \<Rightarrow> string \<Rightarrow> ToolCall" where
  "demo_call i n a = \<lparr>call_id = i, func = \<lparr>name = Some n, arguments = Some a\<rparr>\<rparr>"

definition demo_calls :: "ToolCall list" where
  "demo_calls =
     [demo_call ''1'' ''echo'' ''{}'', demo_call ''2'' ''boom'' ''{}'',
      demo_call ''3'' ''echo'' ''{bad'']"

definition demo_agent :: "nat agent" where
  "demo_agent =
     \<lparr>state = Running, messages = [], tool_calls = [], tool_choices = Auto,
      special_tool_names = [''terminate'', ''restart'', ''boom''], next_step_prompt = [],
      system_prompt = [],
      world = 0\<rparr>"

text \<open>
  A session with a running child process, and four surroundings: a command that prints
  \<open>hi\<close> and a newline before the sentinel; a command that prints nothing before the
  deadline; the same with a signal that cannot be delivered; and an exit of the child.
\<close>

definition live_process :: process where
  "live_process =
     \<lparr>returncode = None, stdin_written = [], signals_sent = [], terminate_requested = False\<rparr>"

definition live_session :: session where
  "live_session = \<lparr>started = True, timed_out = False, process = Some live_process\<rparr>"

definition hello_surroundings :: surroundings where
  "hello_surroundings =
     \<lparr>nt = False, reads = [(''hi'' @ newline @ sentinel @ newline, [])],
      send_signal_error = None, spawn = Inr live_process,
      str_strip = ascii_strip, str_lower = ascii_lower\<rparr>"

definition silent_surroundings :: surroundings where
  "silent_surroundings =
     \<lparr>nt = False, reads = [([], []), ([], [])], send_signal_error = None,
      spawn = Inr live_process, str_strip = ascii_strip, str_lower = ascii_lower\<rparr>"

definition gone_surroundings :: surroundings where
  "gone_surroundings =
     \<lparr>nt = False, reads = [([], []), ([], [])],
      send_signal_error = Some (OtherError ''ProcessLookupError''),
      spawn = Inr live_process, str_strip = ascii_strip, str_lower = ascii_lower\<rparr>"

definition exits :: "int \<Rightarrow> process \<Rightarrow> process" where
  "exits rc p = p\<lparr>returncode := Some rc\<rparr>"

definition timed_out_session :: session where
  "timed_out_session = snd (run silent_surroundings live_session ''Start-Sleep 1000'')"

section \<open>Properties of the agent\<close>

lemma join_concat: "join sep (x # xs) = x @ concat (map (\<lambda>r. sep @ r) xs)"
  by (induction xs arbitrary: x) simp_all

lemma execute_tool_returns: "\<exists>obs. fst (execute_tool e s c) = Inr obs"
  by (auto simp: execute_tool_def split: option.splits prod.splits sum.splits)

lemma handle_special_tool_messages: "messages (handle_special_tool e s n r) = messages s"
  by (simp add: handle_special_tool_def)

lemma execute_tool_try_messages: "messages (snd (execute_tool_try e s n a)) = messages s"
  by (auto simp: execute_tool_try_def handle_special_tool_messages split: sum.splits prod.splits)

lemma execute_tool_cases:
  assumes "P s" and "\<And>n. name (func c) = Some n \<Longrightarrow> n \<noteq> [] \<Longrightarrow> n \<in> tool_names e \<Longrightarrow>
             P (snd (execute_tool_try e s n (arguments (func c))))"
  shows "P (snd (execute_tool e s c))"
proof (cases "name (func c)")
  case None
  with assms(1) show ?thesis by (simp add: execute_tool_def)
next
  case (Some n)
  show ?thesis
  proof (cases "n = [] \<or> n \<notin> tool_names e")
    case True
    with Some assms(1) show ?thesis by (auto simp: execute_tool_def)
  next
    case False
    obtain r s' where t: "execute_tool_try e s n (arguments (func c)) = (r, s')"
      by (cases "execute_tool_try e s n (arguments (func c))")
    from assms(2) [OF Some] False t have "P s'" by simp
    with Some False t show ?thesis
      by (simp add: execute_tool_def split: sum.splits exn.splits)
  qed
qed

lemma execute_tool_messages: "messages (snd (execute_tool e s c)) = messages s"
  by (rule execute_tool_cases) (simp_all add: execute_tool_try_messages)

lemma act_loop_state: "snd (act_loop e s cs acc) = foldl (answered e) s cs"
proof (induction cs arbitrary: s acc)
  case Nil
  show ?case by simp
next
  case (Cons c cs)
  obtain r s1 where ex: "execute_tool e s c = (r, s1)" by (cases "execute_tool e s c")
  show ?case
  proof (cases r)
    case (Inl x)
    with ex execute_tool_returns [of e s c] show ?thesis by simp
  next
    case (Inr obs)
    with ex Cons.IH show ?thesis by (simp add: answered_def)
  qed
qed

lemma act_loop_results:
  "\<exists>obs. length obs = length cs \<and>
         fst (act_loop e s cs acc) = Inr (acc @ obs) \<and>
         messages (foldl (answered e) s cs) = messages s @ map answer (zip cs obs) \<and>
         (\<forall>k<length cs. fst (execute_tool e (foldl (answered e) s (take k cs)) (cs ! k)) = Inr (obs ! k))"
proof (induction cs arbitrary: s acc)
  case Nil
  show ?case by simp
next
  case (Cons c cs)
  obtain r s1 where ex: "execute_tool e s c = (Inr r, s1)"
    using execute_tool_returns [of e s c] by (cases "execute_tool e s c") auto
  define s2 where "s2 = add_message s1 (tool_message r (call_id c) (name (func c)))"
  have ans: "answered e s c = s2"
    by (simp add: answered_def ex s2_def)
  have m2: "messages s2 = messages s @ [answer (c, r)]"
    using execute_tool_messages [of e s c] ex
    by (simp add: s2_def add_message_def answer_def)
  from Cons.IH [of s2 "acc @ [r]"] obtain obs where
    len: "length obs = length cs" and
    res: "fst (act_loop e s2 cs (acc @ [r])) = Inr ((acc @ [r]) @ obs)" and
    mem: "messages (foldl (answered e) s2 cs) = messages s2 @ map answer (zip cs obs)" and
    seq: "\<forall>k<length cs. fst (execute_tool e (foldl (answered e) s2 (take k cs)) (cs ! k)) = Inr (obs ! k)"
    by blast
  have "length (r # obs) = length (c # cs)"
    using len by simp
  moreover have "fst (act_loop e s (c # cs) acc) = Inr (acc @ r # obs)"
    using res by (simp add: ex s2_def)
  moreover have "messages (foldl (answered e) s (c # cs)) = messages s @ map answer (zip (c # cs) (r # obs))"
    using mem by (simp add: ans m2)
  moreover have "\<forall>k<length (c # cs).
      fst (execute_tool e (foldl (answered e) s (take k (c # cs))) ((c # cs) ! k)) = Inr ((r # obs) ! k)"
  proof (intro allI impI)
    fix k assume k: "k < length (c # cs)"
    show "fst (execute_tool e (foldl (answered e) s (take k (c # cs))) ((c # cs) ! k)) = Inr ((r # obs) ! k)"
    proof (cases k)
      case 0
      then show ?thesis by (simp add: ex)
    next
      case (Suc j)
      with k seq show ?thesis by (simp add: ans)
    qed
  qed
  ultimately show ?case by blast
qed

lemma act_runs_calls_in_order_aux:
  assumes "tool_calls s \<noteq> []"
  shows "\<exists>obs. fst (act e s) = Inr (join (newline @ newline) obs)"
proof -
  obtain obs where "fst (act_loop e s (tool_calls s) []) = Inr obs"
    using act_loop_results [of "tool_calls s" e s "[]"] by auto
  with assms show ?thesis
    by (cases "act_loop e s (tool_calls s) []") (auto simp: act_def)
qed

text \<open>
  Claim C1. When \<open>act\<close> is entered with a non-empty list of pending tool calls, it does
  not raise and returns the observations of the calls, as many as there are calls: the
  first one, and each later one after two newline characters. The agent it leaves is
  the one reached by running the calls one after the other in the order of the list;
  memory has gained exactly one tool message per call, in that order, each with the id
  and the tool name of its call and with the observation of that call as content; and
  the observation of call \<open>k\<close> is what \<open>execute_tool\<close> returns in the agent left by the
  calls before it. With no pending call, \<open>act\<close> leaves the agent, and so memory, as it
  is.
\<close>

theorem act_runs_calls_in_order:
  assumes "tool_calls s = cs"
  shows "(cs \<noteq> [] \<longrightarrow>
           (\<exists>obs. length obs = length cs \<and>
              fst (act e s)
                = Inr (hd obs @ concat (map (\<lambda>r. [CHR 0x0A, CHR 0x0A] @ r) (tl obs))) \<and>
              snd (act e s) = foldl (answered e) s cs \<and>
              messages (snd (act e s))
                = messages s @
                  map (\<lambda>(c, r). \<lparr>role = Tool, content = Some r, tool_call_id = Some (call_id c),
                                  tool_name = name (func c), msg_tool_calls = None\<rparr>)
                    (zip cs obs) \<and>
              (\<forall>k<length cs.
                 fst (execute_tool e (foldl (answered e) s (take k cs)) (cs ! k))
                   = Inr (obs ! k)))) \<and>
         (cs = [] \<longrightarrow> snd (act e s) = s)"
proof (intro conjI impI)
  assume ne: "cs \<noteq> []"
  from act_loop_results [of cs e s "[]"] obtain obs where
    len: "length obs = length cs" and
    res: "fst (act_loop e s cs []) = Inr obs" and
    mem: "messages (foldl (answered e) s cs) = messages s @ map answer (zip cs obs)" and
    seq: "\<forall>k<length cs. fst (execute_tool e (foldl (answered e) s (take k cs)) (cs ! k)) = Inr (obs ! k)"
    by auto
  obtain r s' where al: "act_loop e s cs [] = (r, s')" by (cases "act_loop e s cs []")
  with res have r: "r = Inr obs" by simp
  from al act_loop_state [of e s cs "[]"] have s': "s' = foldl (answered e) s cs" by simp
  from len ne obtain x xs where obs: "obs = x # xs" by (cases obs) auto
  have j: "join (newline @ newline) obs
             = hd obs @ concat (map (\<lambda>r. [CHR 0x0A, CHR 0x0A] @ r) (tl obs))"
    by (simp add: obs join_concat newline_def)
  have a: "answer = (\<lambda>(c, r). \<lparr>role = Tool, content = Some r, tool_call_id = Some (call_id c),
                                  tool_name = name (func c), msg_tool_calls = None\<rparr>)"
    by (auto simp: answer_def tool_message_def fun_eq_iff)
  have "act e s = (Inr (join (newline @ newline) obs), foldl (answered e) s cs)"
    using assms ne al r s' by (simp add: act_def)
  with len mem seq j a show "\<exists>obs. length obs = length cs \<and>
              fst (act e s)
                = Inr (hd obs @ concat (map (\<lambda>r. [CHR 0x0A, CHR 0x0A] @ r) (tl obs))) \<and>
              snd (act e s) = foldl (answered e) s cs \<and>
              messages (snd (act e s))
                = messages s @
                  map (\<lambda>(c, r). \<lparr>role = Tool, content = Some r, tool_call_id = Some (call_id c),
                                  tool_name = name (func c), msg_tool_calls = None\<rparr>)
                    (zip cs obs) \<and>
              (\<forall>k<length cs.
                 fst (execute_tool e (foldl (answered e) s (take k cs)) (cs ! k))
                   = Inr (obs ! k))"
    by auto
next
  assume "cs = []"
  with assms show "snd (act e s) = s"
    by (simp add: act_def split: option.splits)
qed

theorem act_runs_calls_in_order_witness:
  "demo_calls \<noteq> [] \<and>
   (\<exists>obs. length obs = length demo_calls \<and>
      fst (act demo_env (demo_agent\<lparr>tool_calls := demo_calls\<rparr>))
        = Inr (hd obs @ concat (map (\<lambda>r. [CHR 0x0A, CHR 0x0A] @ r) (tl obs)))) \<and>
   act demo_env (demo_agent\<lparr>tool_calls := demo_calls\<rparr>)
     = (Inr (''Observed output of cmd `echo` executed:'' @ [CHR 0x0A] @ ''hi''
             @ [CHR 0x0A, CHR 0x0A] @ ''Error: '' @ [CHR 0xE2, CHR 0x9A, CHR 0xA0, CHR 0xEF, CHR 0xB8, CHR 0x8F]
          @ '' Tool '' @ [CHR 0x27] @ ''boom'' @ [CHR 0x27] @ '' encountered a problem: kaput''
             @ [CHR 0x0A, CHR 0x0A]
             @ ''Error: Error parsing arguments for echo: Invalid JSON format''),
        demo_agent\<lparr>tool_calls := demo_calls, world := 2,
          messages :=
            [\<lparr>role = Tool,
              content = Some (''Observed output of cmd `echo` executed:'' @ [CHR 0x0A] @ ''hi''),
              tool_call_id = Some ''1'', tool_name = Some ''echo'', msg_tool_calls = None\<rparr>,
             \<lparr>role = Tool, content = Some (''Error: '' @ [CHR 0xE2, CHR 0x9A, CHR 0xA0, CHR 0xEF, CHR 0xB8, CHR 0x8F]
          @ '' Tool '' @ [CHR 0x27] @ ''boom'' @ [CHR 0x27] @ '' encountered a problem: kaput''),
              tool_call_id = Some ''2'', tool_name = Some ''boom'', msg_tool_calls = None\<rparr>,
             \<lparr>role = Tool,
              content = Some ''Error: Error parsing arguments for echo: Invalid JSON format'',
              tool_call_id = Some ''3'', tool_name = Some ''echo'', msg_tool_calls = None\<rparr>]\<rparr>)"
proof -
  have h1: "tool_calls (demo_agent\<lparr>tool_calls := demo_calls\<rparr>) = demo_calls" by simp
  have h2: "demo_calls \<noteq> []" by (simp add: demo_calls_def)
  have v: "act demo_env (demo_agent\<lparr>tool_calls := demo_calls\<rparr>)
     = (Inr (''Observed output of cmd `echo` executed:'' @ [CHR 0x0A] @ ''hi''
             @ [CHR 0x0A, CHR 0x0A] @ ''Error: '' @ [CHR 0xE2, CHR 0x9A, CHR 0xA0, CHR 0xEF, CHR 0xB8, CHR 0x8F]
          @ '' Tool '' @ [CHR 0x27] @ ''boom'' @ [CHR 0x27] @ '' encountered a problem: kaput''
             @ [CHR 0x0A, CHR 0x0A]
             @ ''Error: Error parsing arguments for echo: Invalid JSON format''),
        demo_agent\<lparr>tool_calls := demo_calls, world := 2,
          messages :=
            [\<lparr>role = Tool,
              content = Some (''Observed output of cmd `echo` executed:'' @ [CHR 0x0A] @ ''hi''),
              tool_call_id = Some ''1'', tool_name = Some ''echo'', msg_tool_calls = None\<rparr>,
             \<lparr>role = Tool, content = Some (''Error: '' @ [CHR 0xE2, CHR 0x9A, CHR 0xA0, CHR 0xEF, CHR 0xB8, CHR 0x8F]
          @ '' Tool '' @ [CHR 0x27] @ ''boom'' @ [CHR 0x27] @ '' encountered a problem: kaput''),
              tool_call_id = Some ''2'', tool_name = Some ''boom'', msg_tool_calls = None\<rparr>,
             \<lparr>role = Tool,
              content = Some ''Error: Error parsing arguments for echo: Invalid JSON format'',
              tool_call_id = Some ''3'', tool_name = Some ''echo'', msg_tool_calls = None\<rparr>]\<rparr>)"
    by (simp add: act_def demo_calls_def demo_call_def demo_agent_def demo_env_def
        execute_tool_def execute_tool_try_def payload_def observation_def
        error_observation_def warning_sign_def apostrophe_def newline_def
        handle_special_tool_def is_special_tool_def add_message_def tool_message_def
        should_finish_execution_def ascii_lower_def ascii_lower_char_def)
  from act_runs_calls_in_order [OF h1, of demo_env] h2 v show ?thesis by blast
qed

lemma lower_special: "n \<in> set (special_tool_names s) \<Longrightarrow> is_special_tool e s n"
  by (simp add: is_special_tool_def)

text \<open>
  Claim C3, amended. When \<open>execute_tool\<close> runs a tool whose name is in
  \<open>special_tool_names\<close>, the tool returns a value, and the truth test of that value and,
  when it is true, its \<open>str\<close> do not raise, then \<open>execute_tool\<close> returns the observation
  formatted from the value and the state of the agent is \<open>Finished\<close> afterwards, whatever
  the value.
\<close>

theorem special_tool_sets_finished:
  assumes "name (func c) = Some n" and "n \<noteq> []" and "n \<in> tool_names e"
    and "n \<in> set (special_tool_names s)"
    and "json_loads e (payload (arguments (func c))) = Inr j"
    and "execute e n j (world s) = (Inr result, w)"
    and "truthy result = Inr b" and "b \<longrightarrow> str_of result = Inr t"
  shows "execute_tool e s c =
           (Inr (if b then ''Observed output of cmd `'' @ n @ ''` executed:'' @ [CHR 0x0A] @ t
                 else ''Cmd `'' @ n @ ''` completed with no output''),
            s\<lparr>world := w, state := Finished\<rparr>)"
  using assms
  by (cases b)
     (simp_all add: execute_tool_def execute_tool_try_def handle_special_tool_def lower_special
        should_finish_execution_def observation_def newline_def)

theorem special_tool_sets_finished_witness:
  "execute_tool demo_env demo_agent (demo_call ''7'' ''terminate'' ''{}'')
     = (Inr ''Cmd `terminate` completed with no output'',
        demo_agent\<lparr>world := 1, state := Finished\<rparr>)"
  using special_tool_sets_finished [of "demo_call ''7'' ''terminate'' ''{}''" "''terminate''"
      demo_env demo_agent "''{}''" "\<lparr>truthy = Inr False, str_of = Inr []\<rparr>" 1 False]
  by (simp add: demo_env_def demo_agent_def demo_call_def payload_def)

text \<open>
  Claim C3 as stated fails: \<open>restart\<close> is a special tool and returns a value, but the
  \<open>str\<close> of the value raises inside the \<open>try\<close> block, before the special tools are
  handled; \<open>execute_tool\<close> returns the error observation and the state stays \<open>Running\<close>.
\<close>

theorem special_tool_formatting_counterexample:
  "''restart'' \<in> set (special_tool_names demo_agent) \<and>
   ''restart'' \<in> tool_names demo_env \<and>
   execute demo_env ''restart'' ''{}'' (world demo_agent)
     = (Inr \<lparr>truthy = Inr True, str_of = Inl (OtherError ''__str__ returned non-string'')\<rparr>, 1) \<and>
   execute_tool demo_env demo_agent (demo_call ''5'' ''restart'' ''{}'')
     = (Inr (''Error: '' @ [CHR 0xE2, CHR 0x9A, CHR 0xA0, CHR 0xEF, CHR 0xB8, CHR 0x8F]
          @ '' Tool '' @ [CHR 0x27] @ ''restart'' @ [CHR 0x27]
          @ '' encountered a problem: __str__ returned non-string''), demo_agent\<lparr>world := 1\<rparr>) \<and>
   state (snd (execute_tool demo_env demo_agent (demo_call ''5'' ''restart'' ''{}''))) = Running"
  by (simp add: demo_env_def demo_agent_def demo_call_def payload_def execute_tool_def
      execute_tool_try_def observation_def error_observation_def warning_sign_def
      apostrophe_def)

text \<open>
  Claim C9. When a tool whose name is in \<open>special_tool_names\<close> raises during its
  execution, \<open>execute_tool\<close> returns the error observation that wraps the message of the
  exception (the JSON observation when the exception is a \<open>JSONDecodeError\<close>) and leaves
  the state of the agent as it was; and whenever \<open>execute_tool\<close> changes the state of the
  agent, the tool was executed, returned a value, and the value was formatted.
\<close>

theorem raising_special_tool_keeps_state:
  "(name (func c) = Some n \<and> n \<noteq> [] \<and> n \<in> tool_names e \<and> n \<in> set (special_tool_names s) \<and>
    json_loads e (payload (arguments (func c))) = Inr j \<and>
    execute e n j (world s) = (Inl x, w)
    \<longrightarrow> execute_tool e s c =
          (Inr (case x of
                       JSONDecodeError m \<Rightarrow> ''Error: Error parsing arguments for '' @ n @ '': Invalid JSON format''
                     | _ \<Rightarrow> ''Error: '' @ [CHR 0xE2, CHR 0x9A, CHR 0xA0, CHR 0xEF, CHR 0xB8, CHR 0x8F] @ '' Tool ''
                       @ [CHR 0x27] @ n @ [CHR 0x27] @ '' encountered a problem: '' @ str_exn x),
           s\<lparr>world := w\<rparr>) \<and>
        state (snd (execute_tool e s c)) = state s) \<and>
   (state (snd (execute_tool e s c)) \<noteq> state s
    \<longrightarrow> (\<exists>n j result w obs. name (func c) = Some n \<and>
           json_loads e (payload (arguments (func c))) = Inr j \<and>
           execute e n j (world s) = (Inr result, w) \<and> observation n result = Inr obs))"
  by (auto simp: execute_tool_def execute_tool_try_def handle_special_tool_def
      error_observation_def warning_sign_def apostrophe_def
      split: option.splits sum.splits prod.splits if_splits exn.splits)

theorem raising_special_tool_keeps_state_witness:
  "''boom'' \<in> set (special_tool_names demo_agent) \<and>
   execute_tool demo_env demo_agent (demo_call ''2'' ''boom'' ''{}'')
     = (Inr (''Error: '' @ [CHR 0xE2, CHR 0x9A, CHR 0xA0, CHR 0xEF, CHR 0xB8, CHR 0x8F]
          @ '' Tool '' @ [CHR 0x27] @ ''boom'' @ [CHR 0x27] @ '' encountered a problem: kaput''), demo_agent\<lparr>world := 1\<rparr>) \<and>
   state (snd (execute_tool demo_env demo_agent (demo_call ''2'' ''boom'' ''{}''))) = Running"
  using raising_special_tool_keeps_state
    [of "demo_call ''2'' ''boom'' ''{}''" "''boom''" demo_env demo_agent "''{}''"
        "OtherError ''kaput''" 1]
  by (simp add: demo_env_def demo_agent_def demo_call_def payload_def)

text \<open>
  Claim C5. \<open>execute_tool\<close> returns an observation for every call and never raises: a call
  without a function name gives the invalid-format observation, a name outside the
  registry the unknown-tool observation, a payload that does not parse the JSON
  observation, and an exception of the tool, or of the formatting of its result, the
  observation that wraps the message of the exception. So \<open>act\<close> with pending calls
  returns and never raises.
\<close>

theorem execute_tool_never_raises:
  "(\<exists>obs. fst (execute_tool e s c) = Inr obs) \<and>
   (name (func c) = None \<or> name (func c) = Some []
      \<longrightarrow> execute_tool e s c = (Inr ''Error: Invalid command format'', s)) \<and>
   (name (func c) = Some n \<and> n \<noteq> [] \<and> n \<notin> tool_names e
      \<longrightarrow> execute_tool e s c = (Inr (''Error: Unknown tool '' @ [CHR 0x27] @ n @ [CHR 0x27]), s)) \<and>
   (name (func c) = Some n \<and> n \<noteq> [] \<and> n \<in> tool_names e \<and>
    json_loads e (payload (arguments (func c))) = Inl (JSONDecodeError m)
      \<longrightarrow> execute_tool e s c
            = (Inr (''Error: Error parsing arguments for '' @ n @ '': Invalid JSON format''), s)) \<and>
   (name (func c) = Some n \<and> n \<noteq> [] \<and> n \<in> tool_names e \<and>
    json_loads e (payload (arguments (func c))) = Inr j \<and> execute e n j (world s) = (Inl x, w)
      \<longrightarrow> execute_tool e s c =
            (Inr (case x of
                       JSONDecodeError m \<Rightarrow> ''Error: Error parsing arguments for '' @ n @ '': Invalid JSON format''
                     | _ \<Rightarrow> ''Error: '' @ [CHR 0xE2, CHR 0x9A, CHR 0xA0, CHR 0xEF, CHR 0xB8, CHR 0x8F] @ '' Tool ''
                       @ [CHR 0x27] @ n @ [CHR 0x27] @ '' encountered a problem: '' @ str_exn x),
             s\<lparr>world := w\<rparr>)) \<and>
   (name (func c) = Some n \<and> n \<noteq> [] \<and> n \<in> tool_names e \<and>
    json_loads e (payload (arguments (func c))) = Inr j \<and>
    execute e n j (world s) = (Inr result, w) \<and>
    (truthy result = Inl x \<or> truthy result = Inr True \<and> str_of result = Inl x)
      \<longrightarrow> execute_tool e s c =
            (Inr (case x of
                       JSONDecodeError m \<Rightarrow> ''Error: Error parsing arguments for '' @ n @ '': Invalid JSON format''
                     | _ \<Rightarrow> ''Error: '' @ [CHR 0xE2, CHR 0x9A, CHR 0xA0, CHR 0xEF, CHR 0xB8, CHR 0x8F] @ '' Tool ''
                       @ [CHR 0x27] @ n @ [CHR 0x27] @ '' encountered a problem: '' @ str_exn x),
             s\<lparr>world := w\<rparr>)) \<and>
   (tool_calls s \<noteq> [] \<longrightarrow> (\<exists>r. fst (act e s) = Inr r))"
proof (intro conjI)
  show "\<exists>obs. fst (execute_tool e s c) = Inr obs" by (rule execute_tool_returns)
  show "tool_calls s \<noteq> [] \<longrightarrow> (\<exists>r. fst (act e s) = Inr r)"
    using act_runs_calls_in_order_aux [of s e] by blast
qed (auto simp: execute_tool_def execute_tool_try_def error_observation_def observation_def
       warning_sign_def apostrophe_def split: exn.splits)

theorem execute_tool_never_raises_witness:
  "execute_tool demo_env demo_agent \<lparr>call_id = ''9'', func = \<lparr>name = None, arguments = None\<rparr>\<rparr>
     = (Inr ''Error: Invalid command format'', demo_agent) \<and>
   execute_tool demo_env demo_agent (demo_call ''9'' ''format_disk'' ''{}'')
     = (Inr (''Error: Unknown tool '' @ [CHR 0x27] @ ''format_disk'' @ [CHR 0x27]), demo_agent) \<and>
   execute_tool demo_env demo_agent (demo_call ''3'' ''echo'' ''{bad'')
     = (Inr ''Error: Error parsing arguments for echo: Invalid JSON format'', demo_agent) \<and>
   execute_tool demo_env demo_agent (demo_call ''2'' ''boom'' ''{}'')
     = (Inr (''Error: '' @ [CHR 0xE2, CHR 0x9A, CHR 0xA0, CHR 0xEF, CHR 0xB8, CHR 0x8F]
          @ '' Tool '' @ [CHR 0x27] @ ''boom'' @ [CHR 0x27] @ '' encountered a problem: kaput''), demo_agent\<lparr>world := 1\<rparr>) \<and>
   execute_tool demo_env demo_agent (demo_call ''5'' ''restart'' ''{}'')
     = (Inr (''Error: '' @ [CHR 0xE2, CHR 0x9A, CHR 0xA0, CHR 0xEF, CHR 0xB8, CHR 0x8F]
          @ '' Tool '' @ [CHR 0x27] @ ''restart'' @ [CHR 0x27]
          @ '' encountered a problem: __str__ returned non-string''), demo_agent\<lparr>world := 1\<rparr>) \<and>
   (\<exists>r. fst (act demo_env (demo_agent\<lparr>tool_calls := demo_calls\<rparr>)) = Inr r)"
  using
    execute_tool_never_raises [of demo_env demo_agent
      "\<lparr>call_id = ''9'', func = \<lparr>name = None, arguments = None\<rparr>\<rparr>"]
    execute_tool_never_raises [of demo_env demo_agent "demo_call ''9'' ''format_disk'' ''{}''"
      "''format_disk''"]
    execute_tool_never_raises [of demo_env demo_agent "demo_call ''3'' ''echo'' ''{bad''"
      "''echo''" "''Expecting property name''"]
    execute_tool_never_raises [of demo_env demo_agent "demo_call ''2'' ''boom'' ''{}''"
      "''boom''" _ "''{}''" "OtherError ''kaput''" 1]
    execute_tool_never_raises [of demo_env demo_agent "demo_call ''5'' ''restart'' ''{}''"
      "''restart''" _ "''{}''" "OtherError ''__str__ returned non-string''" 1
      "\<lparr>truthy = Inr True, str_of = Inl (OtherError ''__str__ returned non-string'')\<rparr>"]
    execute_tool_never_raises [of demo_env "demo_agent\<lparr>tool_calls := demo_calls\<rparr>"]
  by (simp add: demo_env_def demo_agent_def demo_call_def demo_calls_def payload_def)









section \<open>Properties of the session\<close>

lemma find_sub_Some_iff:
  "find_sub sub s = Some i \<longleftrightarrow>
     i \<le> length s \<and> prefix sub (drop i s) \<and> (\<forall>j<i. \<not> prefix sub (drop j s))"
proof (induction s arbitrary: i)
  case Nil
  show ?case by auto
next
  case (Cons c cs)
  show ?case
  proof (cases "prefix sub (c # cs)")
    case True
    then show ?thesis by (cases i) auto
  next
    case False
    show ?thesis
    proof (cases i)
      case 0
      with False show ?thesis by auto
    next
      case (Suc k)
      have "(\<forall>j<Suc k. \<not> prefix sub (drop j (c # cs))) \<longleftrightarrow> (\<forall>j<k. \<not> prefix sub (drop j cs))"
        using False by (auto simp: less_Suc_eq_0_disj)
      with False Suc Cons.IH [of k] show ?thesis by auto
    qed
  qed
qed

lemma find_sub_None_iff:
  "find_sub sub s = None \<longleftrightarrow> (\<forall>j\<le>length s. \<not> prefix sub (drop j s))"
proof (induction s)
  case Nil
  show ?case by auto
next
  case (Cons c cs)
  have "(\<forall>j\<le>length (c # cs). \<not> prefix sub (drop j (c # cs)))
        \<longleftrightarrow> \<not> prefix sub (c # cs) \<and> (\<forall>j\<le>length cs. \<not> prefix sub (drop j cs))"
    (is "?L \<longleftrightarrow> ?R")
  proof
    assume l: ?L
    have "\<not> prefix sub (c # cs)" using l [rule_format, of 0] by simp
    moreover have "\<not> prefix sub (drop j cs)" if "j \<le> length cs" for j
      using l [rule_format, of "Suc j"] that by simp
    ultimately show ?R by blast
  next
    assume r: ?R
    show ?L
    proof (intro allI impI)
      fix j assume "j \<le> length (c # cs)"
      then show "\<not> prefix sub (drop j (c # cs))"
        using r by (cases j) auto
    qed
  qed
  with Cons.IH show ?case by auto
qed

lemma contains_iff: "contains s sub \<longleftrightarrow> (\<exists>u v. s = u @ sub @ v)"
proof
  assume "contains s sub"
  then obtain j where "j \<le> length s" "prefix sub (drop j s)"
    using find_sub_None_iff [of sub s] by (auto simp: contains_def)
  then obtain v where "drop j s = sub @ v" by (auto simp: prefix_def)
  then have "s = take j s @ sub @ v" by (metis append_take_drop_id)
  then show "\<exists>u v. s = u @ sub @ v" by blast
next
  assume "\<exists>u v. s = u @ sub @ v"
  then obtain u v where s: "s = u @ sub @ v" by blast
  then have "length u \<le> length s" "prefix sub (drop (length u) s)" by auto
  then show "contains s sub"
    using find_sub_None_iff [of sub s] by (auto simp: contains_def)
qed

lemma accumulated_0: "accumulated ((so, se) # rest) 0 = so"
  by (simp add: accumulated_def)

lemma accumulated_Suc: "accumulated ((so, se) # rest) (Suc k) = so @ accumulated rest k"
  by (simp add: accumulated_def)

lemma error_before_Suc: "error_before ((so, se) # rest) (Suc k) = se @ error_before rest k"
  by (simp add: error_before_def)

lemma read_loop_step:
  assumes "find_sub sentinel (out @ so) = None"
  shows "read_loop out err ((so, se) # rest) = read_loop (out @ so) (err @ se) rest"
  using assms by (cases "so = []"; cases "se = []") (simp_all add: Let_def)

lemma read_loop_found:
  assumes "\<not> contains out sentinel" and "k < length rs"
    and "\<forall>j<k. \<not> contains (out @ accumulated rs j) sentinel"
    and "find_sub sentinel (out @ accumulated rs k) = Some i"
  shows "read_loop out err rs = Some (take i (out @ accumulated rs k), err @ error_before rs k)"
  using assms
proof (induction rs arbitrary: out err k)
  case Nil
  then show ?case by simp
next
  case (Cons r rest)
  obtain so se where r: "r = (so, se)" by (cases r)
  show ?case
  proof (cases k)
    case 0
    with Cons.prems r have f: "find_sub sentinel (out @ so) = Some i"
      by (simp add: accumulated_0)
    with Cons.prems(1) have "so \<noteq> []" by (auto simp: contains_def)
    with f r 0 show ?thesis
      by (simp add: Let_def accumulated_0 error_before_def)
  next
    case (Suc k')
    from Cons.prems(3) Suc r have n0: "\<not> contains (out @ so) sentinel"
      using accumulated_0 [of so se rest] by (metis zero_less_Suc)
    then have step: "read_loop out err (r # rest) = read_loop (out @ so) (err @ se) rest"
      using read_loop_step [of out so err se rest] r by (simp add: contains_def)
    have "\<forall>j<k'. \<not> contains ((out @ so) @ accumulated rest j) sentinel"
    proof (intro allI impI)
      fix j assume "j < k'"
      then have "Suc j < k" using Suc by simp
      with Cons.prems(3) have "\<not> contains (out @ accumulated (r # rest) (Suc j)) sentinel" by blast
      then show "\<not> contains ((out @ so) @ accumulated rest j) sentinel"
        by (simp add: r accumulated_Suc)
    qed
    moreover have "find_sub sentinel ((out @ so) @ accumulated rest k') = Some i"
      using Cons.prems(4) Suc r by (simp add: accumulated_Suc)
    moreover have "k' < length rest" using Cons.prems(2) Suc by simp
    ultimately have "read_loop (out @ so) (err @ se) rest
        = Some (take i ((out @ so) @ accumulated rest k'), (err @ se) @ error_before rest k')"
      using Cons.IH [of "out @ so" k' "err @ se"] n0 by blast
    with step Suc r show ?thesis
      by (simp add: accumulated_Suc error_before_Suc)
  qed
qed

lemma read_loop_None:
  assumes "\<not> contains out sentinel"
    and "\<forall>j<length rs. \<not> contains (out @ accumulated rs j) sentinel"
  shows "read_loop out err rs = None"
  using assms
proof (induction rs arbitrary: out err)
  case Nil
  show ?case by simp
next
  case (Cons r rest)
  obtain so se where r: "r = (so, se)" by (cases r)
  from Cons.prems(2) r have n0: "\<not> contains (out @ so) sentinel"
    using accumulated_0 [of so se rest] by (metis length_greater_0_conv list.distinct(1))
  then have step: "read_loop out err (r # rest) = read_loop (out @ so) (err @ se) rest"
    using read_loop_step [of out so err se rest] r by (simp add: contains_def)
  have "\<forall>j<length rest. \<not> contains ((out @ so) @ accumulated rest j) sentinel"
  proof (intro allI impI)
    fix j assume "j < length rest"
    then have "Suc j < length (r # rest)" by simp
    with Cons.prems(2) have "\<not> contains (out @ accumulated (r # rest) (Suc j)) sentinel" by blast
    then show "\<not> contains ((out @ so) @ accumulated rest j) sentinel"
      by (simp add: r accumulated_Suc)
  qed
  with Cons.IH [of "out @ so" "err @ se"] n0 step show ?case by simp
qed

lemma empty_sentinel_free: "\<not> contains [] sentinel"
  by (simp add: contains_def sentinel_def)

lemma sentinel_unbordered:
  assumes "0 < m" and "m < 8"
  shows "drop m sentinel \<noteq> take (8 - m) sentinel"
proof -
  from assms have "m = 1 \<or> m = 2 \<or> m = 3 \<or> m = 4 \<or> m = 5 \<or> m = 6 \<or> m = 7" by arith
  then show ?thesis by (auto simp: sentinel_def)
qed

lemma length_sentinel: "length sentinel = 8"
  by (simp add: sentinel_def)

lemma prefix_short: "prefix a (x @ y) \<Longrightarrow> length a \<le> length x \<Longrightarrow> prefix a x"
  by (auto simp: prefix_append)

lemma first_occurrence:
  assumes "sentinel_free t" and "j < length t"
  shows "\<not> prefix sentinel (drop j (t @ sentinel @ rest))"
proof
  assume p: "prefix sentinel (drop j (t @ sentinel @ rest))"
  define x where "x = drop j t"
  have x: "drop j (t @ sentinel @ rest) = x @ sentinel @ rest" and lx: "0 < length x"
    using assms(2) by (simp_all add: x_def)
  show False
  proof (cases "8 \<le> length x")
    case True
    with p x have "prefix sentinel x"
      using prefix_short [of sentinel x "sentinel @ rest"] by (simp add: length_sentinel)
    then obtain v where "x = sentinel @ v" by (auto simp: prefix_def)
    then have "t = take j t @ sentinel @ v"
      by (metis append_take_drop_id x_def)
    then have "contains t sentinel" using contains_iff by blast
    with assms(1) show False by (simp add: sentinel_free_def)
  next
    case False
    then have m: "length x < 8" by simp
    from p x have "prefix sentinel (x @ sentinel @ rest)" by simp
    then have "prefix sentinel x \<or> (\<exists>us. sentinel = x @ us \<and> prefix us (sentinel @ rest))"
      by (simp add: prefix_append)
    moreover have "\<not> prefix sentinel x"
      using m prefix_length_le [of sentinel x] by (auto simp: length_sentinel)
    ultimately obtain us where us: "sentinel = x @ us" and pu: "prefix us (sentinel @ rest)"
      by blast
    from us have d: "us = drop (length x) sentinel" by (metis append_eq_conv_conj)
    from us have lu: "length us = 8 - length x"
      using length_sentinel by (metis add_diff_cancel_left' length_append)
    from pu lu have "prefix us sentinel"
      using prefix_short [of us sentinel rest] by (simp add: length_sentinel)
    then have "us = take (8 - length x) sentinel"
      using lu by (metis append_eq_conv_conj prefix_def)
    with d sentinel_unbordered [OF lx m] show False by simp
  qed
qed

lemma accumulated_prefix: "k < length rs \<Longrightarrow> \<exists>w. concat (map fst rs) = accumulated rs k @ w"
proof -
  have "concat (map fst rs) = concat (map fst (take (Suc k) rs @ drop (Suc k) rs))" by simp
  also have "\<dots> = accumulated rs k @ concat (map fst (drop (Suc k) rs))"
    unfolding accumulated_def map_append concat_append ..
  finally show ?thesis by blast
qed

lemma sentinel_round:
  assumes "sentinel_free t" and "concat (map fst rs) = t @ sentinel @ rest"
  shows "\<exists>k<length rs. (\<forall>j<k. \<not> contains (accumulated rs j) sentinel) \<and>
           find_sub sentinel (accumulated rs k) = Some (length t) \<and>
           take (length t) (accumulated rs k) = t"
proof -
  define P where "P k \<longleftrightarrow> contains (accumulated rs k) sentinel" for k
  have ne: "rs \<noteq> []" using assms(2) by (auto simp: sentinel_def)
  have "accumulated rs (length rs - 1) = concat (map fst rs)"
    using ne by (simp add: accumulated_def)
  then have "P (length rs - 1)"
    using assms(2) contains_iff unfolding P_def by metis
  define k where "k = (LEAST k. P k)"
  have Pk: "P k" unfolding k_def using \<open>P (length rs - 1)\<close> by (rule LeastI)
  have least: "\<forall>j<k. \<not> P j" unfolding k_def using not_less_Least by blast
  have "k \<le> length rs - 1" unfolding k_def using \<open>P (length rs - 1)\<close> by (rule Least_le)
  with ne have klt: "k < length rs" by (cases rs) auto
  obtain w where w: "t @ sentinel @ rest = accumulated rs k @ w"
    using accumulated_prefix [OF klt] assms(2) by metis
  from Pk obtain i where i: "find_sub sentinel (accumulated rs k) = Some i"
    by (auto simp: P_def contains_def)
  then have il: "i \<le> length (accumulated rs k)"
    and ip: "prefix sentinel (drop i (accumulated rs k))"
    and imin: "\<forall>j<i. \<not> prefix sentinel (drop j (accumulated rs k))"
    using find_sub_Some_iff [of sentinel "accumulated rs k" i] by auto
  have "prefix sentinel (drop i (t @ sentinel @ rest))"
    using ip il by (simp add: w)
  with first_occurrence [OF assms(1), of i rest] have ige: "length t \<le> i" by (meson not_le)
  from ip have "length sentinel \<le> length (drop i (accumulated rs k))" by (rule prefix_length_le)
  with ige have long: "length t + 8 \<le> length (accumulated rs k)"
    by (simp add: length_sentinel)
  have ts: "take (length t + 8) (accumulated rs k) = t @ sentinel"
  proof -
    have "take (length t + 8) (accumulated rs k) = take (length t + 8) (accumulated rs k @ w)"
      using long by simp
    also have "\<dots> = take (length t + 8) (t @ sentinel @ rest)" by (simp only: w)
    also have "\<dots> = t @ sentinel" by (simp add: length_sentinel)
    finally show ?thesis .
  qed
  then obtain v where acc: "accumulated rs k = t @ sentinel @ v"
    by (metis append_take_drop_id append.assoc)
  have "i = length t"
  proof (rule ccontr)
    assume "i \<noteq> length t"
    with ige have "length t < i" by simp
    with imin have "\<not> prefix sentinel (drop (length t) (accumulated rs k))" by blast
    then show False by (simp add: acc)
  qed
  with i acc least klt show ?thesis
    unfolding P_def by auto
qed

lemma run_live:
  assumes "started s" and "\<not> timed_out s" and "process s = Some p" and "returncode p = None"
    and "read_loop [] [] (reads env) = Some (out, err)"
  shows "fst (run env s command)
          = Inr (CLIResult (Some (strip_newline out)) (Some (strip_newline err)) None)"
  using assms by (simp add: run_def Let_def)

lemma strip_newline_free: "sentinel_free t \<Longrightarrow> sentinel_free (strip_newline t)"
proof (rule ccontr)
  assume f: "sentinel_free t" and "\<not> sentinel_free (strip_newline t)"
  then obtain u v where uv: "strip_newline t = u @ sentinel @ v"
    using contains_iff by (auto simp: sentinel_free_def)
  have "\<exists>z. t = strip_newline t @ z"
  proof (cases "t \<noteq> [] \<and> last t = CHR 0x0A")
    case True
    then have "t \<noteq> []" by blast
    then have "t = butlast t @ [last t]" by (rule append_butlast_last_id [symmetric])
    moreover have "strip_newline t = butlast t" using True by (simp add: strip_newline_def)
    ultimately have "t = strip_newline t @ [last t]" by metis
    then show ?thesis by blast
  next
    case False
    then have "t = strip_newline t @ []" by (auto simp: strip_newline_def)
    then show ?thesis by blast
  qed
  then obtain z where "t = u @ sentinel @ (v @ z)" using uv by auto
  then have "contains t sentinel" using contains_iff by blast
  with f show False by (simp add: sentinel_free_def)
qed

text \<open>
  Claim C7, amended. On a started session whose process runs and which has not timed
  out: when round \<open>k\<close> is the first after which the accumulated output contains the
  sentinel, and \<open>u\<close> is the text before the first occurrence of the sentinel in it,
  \<open>run\<close> returns a \<open>CLIResult\<close> whose output is \<open>u\<close> and whose error is the error text
  read in the rounds before \<open>k\<close>, each without one trailing newline if it ends with one.
  In particular, when the command writes a text \<open>t\<close> free of the sentinel and then the
  sentinel, in any division into reads, the returned output is \<open>t\<close> without one trailing
  newline if it ends with one, and it is free of the sentinel.
\<close>

theorem run_returns_text_before_sentinel:
  assumes "started s" and "\<not> timed_out s" and "process s = Some p" and "returncode p = None"
  shows
    "(k < length (reads env) \<and> (\<forall>j<k. sentinel_free (accumulated (reads env) j)) \<and>
      accumulated (reads env) k = u @ sentinel @ v \<and>
      (\<forall>j<length u. \<not> prefix sentinel (drop j (accumulated (reads env) k)))
        \<longrightarrow> fst (run env s command)
              = Inr (CLIResult (Some (strip_newline u))
                      (Some (strip_newline (error_before (reads env) k))) None)) \<and>
     (sentinel_free t \<and> concat (map fst (reads env)) = t @ sentinel @ rest
        \<longrightarrow> (\<exists>err. fst (run env s command) = Inr (CLIResult (Some (strip_newline t)) (Some err) None))
            \<and> sentinel_free (strip_newline t))"
proof (intro conjI impI)
  assume h: "k < length (reads env) \<and> (\<forall>j<k. sentinel_free (accumulated (reads env) j)) \<and>
      accumulated (reads env) k = u @ sentinel @ v \<and>
      (\<forall>j<length u. \<not> prefix sentinel (drop j (accumulated (reads env) k)))"
  then have "find_sub sentinel (accumulated (reads env) k) = Some (length u)"
    using find_sub_Some_iff [of sentinel "accumulated (reads env) k" "length u"] by auto
  with h have "read_loop [] [] (reads env)
      = Some (take (length u) (accumulated (reads env) k), error_before (reads env) k)"
    using read_loop_found [of "[]" k "reads env" "length u" "[]"] empty_sentinel_free
    by (auto simp: sentinel_free_def)
  moreover have "take (length u) (accumulated (reads env) k) = u" using h by simp
  ultimately show "fst (run env s command)
              = Inr (CLIResult (Some (strip_newline u))
                      (Some (strip_newline (error_before (reads env) k))) None)"
    using run_live [OF assms] by simp
next
  assume h: "sentinel_free t \<and> concat (map fst (reads env)) = t @ sentinel @ rest"
  then obtain k where k: "k < length (reads env)"
    "\<forall>j<k. \<not> contains (accumulated (reads env) j) sentinel"
    "find_sub sentinel (accumulated (reads env) k) = Some (length t)"
    "take (length t) (accumulated (reads env) k) = t"
    using sentinel_round [of t "reads env" rest] by blast
  then have "read_loop [] [] (reads env) = Some (t, error_before (reads env) k)"
    using read_loop_found [of "[]" k "reads env" "length t" "[]"] empty_sentinel_free by simp
  then show "\<exists>err. fst (run env s command) = Inr (CLIResult (Some (strip_newline t)) (Some err) None)"
    using run_live [OF assms] by blast
next
  assume "sentinel_free t \<and> concat (map fst (reads env)) = t @ sentinel @ rest"
  then show "sentinel_free (strip_newline t)" by (simp add: strip_newline_free)
qed

theorem run_returns_text_before_sentinel_witness:
  "sentinel_free (''hi'' @ newline) \<and>
   (\<exists>err. fst (run hello_surroundings live_session ''echo hi'')
      = Inr (CLIResult (Some (strip_newline (''hi'' @ newline))) (Some err) None)) \<and>
   strip_newline (''hi'' @ newline) = ''hi''"
proof -
  have f: "sentinel_free (''hi'' @ newline)"
    by (simp add: sentinel_free_def contains_def sentinel_def newline_def)
  have c: "concat (map fst (reads hello_surroundings)) = (''hi'' @ newline) @ sentinel @ newline"
    by (simp add: hello_surroundings_def)
  have l: "started live_session" "\<not> timed_out live_session"
    "process live_session = Some live_process" "returncode live_process = None"
    by (simp_all add: live_session_def live_process_def)
  from run_returns_text_before_sentinel
    [where s = live_session and p = live_process and env = hello_surroundings
       and t = "''hi'' @ newline" and rest = newline and command = "''echo hi''", OF l] f c
  show ?thesis by (simp add: strip_newline_def newline_def)
qed

text \<open>
  Claim C7 as stated fails: the sentinel-free output \<open>hi\<close> followed by a newline is
  returned as \<open>hi\<close>, not exactly as written.
\<close>

theorem run_strips_newline_counterexample:
  "sentinel_free (''hi'' @ newline) \<and>
   reads hello_surroundings = [((''hi'' @ newline) @ sentinel @ newline, [])] \<and>
   fst (run hello_surroundings live_session ''echo hi'') = Inr (CLIResult (Some ''hi'') (Some []) None) \<and>
   ''hi'' \<noteq> ''hi'' @ newline"
  by (simp add: sentinel_free_def contains_def sentinel_def newline_def hello_surroundings_def
      live_session_def live_process_def run_def Let_def strip_newline_def)

text \<open>
  Claim C10. On a started session that is timed out and whose process has exited, \<open>run\<close>
  returns the result that asks for a restart, with the return code in its error text,
  and does not raise the timed-out error; the session is left as it is.
\<close>

theorem exited_is_checked_before_timed_out:
  assumes "started s" and "timed_out s" and "process s = Some p" and "returncode p = Some rc"
  shows "run env s command
          = (Inr (ToolResult None (Some (''PowerShell has exited with returncode '' @ str_int rc))
                   (Some ''tool must be restarted'')), s)"
  using assms by (simp add: run_def exited_result_def)

theorem exited_is_checked_before_timed_out_witness:
  "run silent_surroundings
     \<lparr>started = True, timed_out = True, process = Some (exits (- 1) live_process)\<rparr> ''dir''
   = (Inr (ToolResult None (Some ''PowerShell has exited with returncode -1'')
            (Some ''tool must be restarted'')),
      \<lparr>started = True, timed_out = True, process = Some (exits (- 1) live_process)\<rparr>)"
  using exited_is_checked_before_timed_out
    [of "\<lparr>started = True, timed_out = True, process = Some (exits (- 1) live_process)\<rparr>"
        "exits (- 1) live_process" "- 1" silent_surroundings "''dir''"]
  by (simp add: exits_def live_process_def str_int_def str_nat.simps digit_def)

lemma exceeds_budget_read_loop: "exceeds_budget env \<Longrightarrow> read_loop [] [] (reads env) = None"
  using read_loop_None [of "[]" "reads env" "[]"] empty_sentinel_free
  by (simp add: exceeds_budget_def sentinel_free_def)

lemma run_timed_out:
  assumes "started s" and "timed_out s" and "process s = Some p"
  shows "run env s command =
           ((case returncode p of
               None \<Rightarrow> Inl (ToolError timed_out_message)
             | Some rc \<Rightarrow> Inr (exited_result rc)), s)"
  using assms by (simp add: run_def split: option.splits)

lemma run_later_timed_out:
  assumes "started s" and "timed_out s" and "process s \<noteq> None"
  shows "(\<forall>r\<in>set (fst (run_later s calls)).
            r = Inl (ToolError timed_out_message) \<or> (\<exists>rc. r = Inr (exited_result rc))) \<and>
         length (fst (run_later s calls)) = length calls \<and>
         started (snd (run_later s calls)) \<and> timed_out (snd (run_later s calls))"
  using assms
proof (induction calls arbitrary: s)
  case Nil
  then show ?case by simp
next
  case (Cons call calls)
  obtain env change command where call: "call = (env, change, command)" by (cases call)
  from Cons.prems obtain p where p: "process s = Some p" by auto
  define s0 where "s0 = s\<lparr>process := map_option change (process s)\<rparr>"
  have s0: "started s0" "timed_out s0" "process s0 = Some (change p)"
    using Cons.prems p by (simp_all add: s0_def)
  have r: "run env s0 command =
           ((case returncode (change p) of
               None \<Rightarrow> Inl (ToolError timed_out_message)
             | Some rc \<Rightarrow> Inr (exited_result rc)), s0)"
    using run_timed_out [OF s0] .
  have ih: "(\<forall>r\<in>set (fst (run_later s0 calls)).
            r = Inl (ToolError timed_out_message) \<or> (\<exists>rc. r = Inr (exited_result rc))) \<and>
         length (fst (run_later s0 calls)) = length calls \<and>
         started (snd (run_later s0 calls)) \<and> timed_out (snd (run_later s0 calls))"
    using Cons.IH [of s0] s0 by simp
  obtain rs s2 where rl: "run_later s0 calls = (rs, s2)" by (cases "run_later s0 calls")
  have "run_later s (call # calls) =
          ((case returncode (change p) of
               None \<Rightarrow> Inl (ToolError timed_out_message)
             | Some rc \<Rightarrow> Inr (exited_result rc)) # rs, s2)"
    using r rl by (simp add: call s0_def [symmetric])
  with ih rl show ?case by (auto split: option.splits)
qed

lemma timed_out_session_eq:
  "timed_out_session =
     \<lparr>started = True, timed_out = True,
      process = Some (live_process\<lparr>stdin_written :=
        [''Start-Sleep 1000; Write-Output '' @ apostrophe @ sentinel @ apostrophe @ newline],
        signals_sent := [SIGINT]\<rparr>)\<rparr>"
  by (simp add: timed_out_session_def run_def silent_surroundings_def live_session_def
      live_process_def Let_def interrupt_signal_def)

text \<open>
  Claim C2, amended. A \<open>run\<close> that exceeds its time budget raises and leaves the session
  timed out. On a timed-out session every later \<open>run\<close> returns at once and leaves the
  session and its process untouched: it raises the timed-out error while the process
  runs, and returns the restart-required result once the process has exited; this holds
  for every sequence of later calls, whatever happens to the process between them. A
  restart through the adapter replaces the session by a fresh one that is not timed out.
\<close>

theorem timed_out_is_sticky:
  "(started s \<and> \<not> timed_out s \<and> process s = Some p \<and> returncode p = None \<and> exceeds_budget env
      \<longrightarrow> (\<exists>x. fst (run env s command) = Inl x) \<and>
          started (snd (run env s command)) \<and> timed_out (snd (run env s command)) \<and>
          process (snd (run env s command)) \<noteq> None) \<and>
   (started s \<and> timed_out s \<and> process s = Some p
      \<longrightarrow> run env s command =
            ((case returncode p of
                None \<Rightarrow> Inl (ToolError timed_out_message)
              | Some rc \<Rightarrow> Inr (exited_result rc)), s)) \<and>
   (started s \<and> timed_out s \<and> process s \<noteq> None
      \<longrightarrow> (\<forall>r\<in>set (fst (run_later s calls)).
             r = Inl (ToolError timed_out_message) \<or> (\<exists>rc. r = Inr (exited_result rc))) \<and>
          length (fst (run_later s calls)) = length calls \<and>
          timed_out (snd (run_later s calls))) \<and>
   (started s \<and> process s = Some p \<and> spawn env = Inr q
      \<longrightarrow> execute_powershell env (Some s) c True =
            (Inr (ToolResult None None (Some ''tool has been restarted.'')),
             Some \<lparr>started = True, timed_out = False, process = Some q\<rparr>))"
proof (intro conjI impI)
  assume h: "started s \<and> \<not> timed_out s \<and> process s = Some p \<and> returncode p = None \<and>
    exceeds_budget env"
  then have rl: "read_loop [] [] (reads env) = None" by (simp add: exceeds_budget_read_loop)
  show "\<exists>x. fst (run env s command) = Inl x"
    using h rl by (auto simp: run_def Let_def split: option.splits)
  show "started (snd (run env s command))"
    using h rl by (auto simp: run_def Let_def split: option.splits)
  show "timed_out (snd (run env s command))"
    using h rl by (auto simp: run_def Let_def split: option.splits)
  show "process (snd (run env s command)) \<noteq> None"
    using h rl by (auto simp: run_def Let_def split: option.splits)
next
  assume "started s \<and> timed_out s \<and> process s = Some p"
  then show "run env s command =
            ((case returncode p of
                None \<Rightarrow> Inl (ToolError timed_out_message)
              | Some rc \<Rightarrow> Inr (exited_result rc)), s)"
    by (simp add: run_timed_out)
next
  assume h: "started s \<and> timed_out s \<and> process s \<noteq> None"
  then have *: "(\<forall>r\<in>set (fst (run_later s calls)).
            r = Inl (ToolError timed_out_message) \<or> (\<exists>rc. r = Inr (exited_result rc))) \<and>
         length (fst (run_later s calls)) = length calls \<and>
         started (snd (run_later s calls)) \<and> timed_out (snd (run_later s calls))"
    using run_later_timed_out [of s calls] by blast
  from * show "\<forall>r\<in>set (fst (run_later s calls)).
             r = Inl (ToolError timed_out_message) \<or> (\<exists>rc. r = Inr (exited_result rc))" by blast
  from * show "length (fst (run_later s calls)) = length calls" by blast
  from * show "timed_out (snd (run_later s calls))" by blast
next
  assume "started s \<and> process s = Some p \<and> spawn env = Inr q"
  then show "execute_powershell env (Some s) c True =
            (Inr (ToolResult None None (Some ''tool has been restarted.'')),
             Some \<lparr>started = True, timed_out = False, process = Some q\<rparr>)"
    by (simp add: execute_powershell_def stop_def start_def new_session_def)
qed

theorem timed_out_is_sticky_witness:
  "exceeds_budget silent_surroundings \<and>
   fst (run silent_surroundings live_session ''Start-Sleep 1000'') = Inl (ToolError timed_out_message) \<and>
   timed_out timed_out_session \<and>
   run silent_surroundings timed_out_session ''dir'' = (Inl (ToolError timed_out_message), timed_out_session) \<and>
   fst (run_later timed_out_session
         [(hello_surroundings, (\<lambda>p. p), ''dir''), (hello_surroundings, exits 1, ''dir'')])
     = [Inl (ToolError timed_out_message), Inr (exited_result 1)] \<and>
   execute_powershell hello_surroundings (Some timed_out_session) None True =
     (Inr (ToolResult None None (Some ''tool has been restarted.'')), Some live_session)"
proof -
  have b: "exceeds_budget silent_surroundings"
    by (simp add: exceeds_budget_def silent_surroundings_def accumulated_def sentinel_free_def
        contains_def sentinel_def less_Suc_eq)
  have l: "started live_session \<and> \<not> timed_out live_session \<and>
    process live_session = Some live_process \<and> returncode live_process = None"
    by (simp add: live_session_def live_process_def)
  have t: "started timed_out_session \<and> timed_out timed_out_session \<and>
    process timed_out_session = Some (live_process\<lparr>stdin_written :=
        [''Start-Sleep 1000; Write-Output '' @ apostrophe @ sentinel @ apostrophe @ newline],
        signals_sent := [SIGINT]\<rparr>)"
    by (simp add: timed_out_session_eq)
  have r1: "fst (run silent_surroundings live_session ''Start-Sleep 1000'') = Inl (ToolError timed_out_message)"
    by (simp add: run_def silent_surroundings_def live_session_def live_process_def Let_def)
  have rl: "fst (run_later timed_out_session
         [(hello_surroundings, (\<lambda>p. p), ''dir''), (hello_surroundings, exits 1, ''dir'')])
     = [Inl (ToolError timed_out_message), Inr (exited_result 1)]"
    by (simp add: timed_out_session_eq run_def exits_def live_process_def)
  from timed_out_is_sticky
    [where s = timed_out_session and env = hello_surroundings and command = "''dir''"
       and q = live_process and c = None
       and p = "live_process\<lparr>stdin_written :=
        [''Start-Sleep 1000; Write-Output '' @ apostrophe @ sentinel @ apostrophe @ newline],
        signals_sent := [SIGINT]\<rparr>"] t
  have "execute_powershell hello_surroundings (Some timed_out_session) None True =
     (Inr (ToolResult None None (Some ''tool has been restarted.'')),
      Some \<lparr>started = True, timed_out = False, process = Some live_process\<rparr>)"
    by (simp add: hello_surroundings_def)
  moreover from timed_out_is_sticky
    [where s = timed_out_session and env = silent_surroundings and command = "''dir''"
       and p = "live_process\<lparr>stdin_written :=
        [''Start-Sleep 1000; Write-Output '' @ apostrophe @ sentinel @ apostrophe @ newline],
        signals_sent := [SIGINT]\<rparr>"] t
  have "run silent_surroundings timed_out_session ''dir'' = (Inl (ToolError timed_out_message), timed_out_session)"
    by (simp add: live_process_def)
  ultimately show ?thesis
    using b r1 t rl by (simp add: live_session_def)
qed

text \<open>
  Claim C2 as stated fails: after a \<open>run\<close> that timed out, when the process has exited
  with code 1, the next \<open>run\<close> does not raise but returns a result.
\<close>

theorem timed_out_run_returns_result_counterexample:
  "fst (run silent_surroundings live_session ''Start-Sleep 1000'') = Inl (ToolError timed_out_message) \<and>
   timed_out_session = snd (run silent_surroundings live_session ''Start-Sleep 1000'') \<and>
   timed_out timed_out_session \<and>
   fst (run hello_surroundings
         (timed_out_session\<lparr>process := map_option (exits 1) (process timed_out_session)\<rparr>) ''dir'')
     = Inr (ToolResult None (Some ''PowerShell has exited with returncode 1'')
             (Some ''tool must be restarted''))"
  by (simp add: timed_out_session_eq exits_def run_def exited_result_def str_int_def
        str_nat.simps digit_def)
     (simp add: timed_out_session_def run_def silent_surroundings_def live_session_def
        live_process_def Let_def interrupt_signal_def)

text \<open>
  Claim C8 at a failing input: the deadline passes and \<open>send_signal\<close> raises
  \<open>ProcessLookupError\<close>. \<open>run\<close> raises that exception, not the timed-out error, which it
  raises in the same situation when the signal is delivered.
\<close>

theorem undelivered_signal_escapes_run:
  "read_loop [] [] (reads gone_surroundings) = None \<and>
   fst (run gone_surroundings live_session ''exit'') = Inl (OtherError ''ProcessLookupError'') \<and>
   timed_out (snd (run gone_surroundings live_session ''exit'')) \<and>
   fst (run silent_surroundings live_session ''exit'') = Inl (ToolError timed_out_message)"
  by (simp add: run_def gone_surroundings_def silent_surroundings_def live_session_def
      live_process_def Let_def)

end
